theory Spec2Isabelle
  imports Complex_Main
begin

section \<open>Python values used by the program\<close>

text \<open>
  A Python \<open>float\<close> is an IEEE double. Its finite values are modelled by the real
  number they denote, next to the three special values. Rounding and the sign of
  zero are not modelled: arithmetic on finite values is exact, except that a
  quotient too large for a double is an infinity, as in the division below.
\<close>

datatype pyfloat = Fin real | PInf | NInf | NaN

text \<open>The exceptions the modelled code can raise, each with its message.\<close>

datatype pyerror =
    ValueError string
  | TypeError string
  | OverflowError string
  | LibUSBError string

fun fsgn :: "pyfloat \<Rightarrow> int" where
  "fsgn (Fin r) = (if r < 0 then - 1 else if r = 0 then 0 else 1)"
| "fsgn PInf = 1"
| "fsgn NInf = - 1"
| "fsgn NaN = 0"

fun fneg :: "pyfloat \<Rightarrow> pyfloat" where
  "fneg (Fin r) = Fin (- r)"
| "fneg PInf = NInf"
| "fneg NInf = PInf"
| "fneg NaN = NaN"

fun fadd :: "pyfloat \<Rightarrow> pyfloat \<Rightarrow> pyfloat" where
  "fadd NaN _ = NaN"
| "fadd _ NaN = NaN"
| "fadd (Fin x) (Fin y) = Fin (x + y)"
| "fadd PInf NInf = NaN"
| "fadd NInf PInf = NaN"
| "fadd PInf _ = PInf"
| "fadd NInf _ = NInf"
| "fadd _ PInf = PInf"
| "fadd _ NInf = NInf"

definition fsub :: "pyfloat \<Rightarrow> pyfloat \<Rightarrow> pyfloat" where
  "fsub a b = fadd a (fneg b)"

fun fmul :: "pyfloat \<Rightarrow> pyfloat \<Rightarrow> pyfloat" where
  "fmul NaN _ = NaN"
| "fmul _ NaN = NaN"
| "fmul (Fin x) (Fin y) = Fin (x * y)"
| "fmul a b =
     (if fsgn a * fsgn b = 0 then NaN else if 0 < fsgn a * fsgn b then PInf else NInf)"

text \<open>
  Division as NumPy does it on doubles: dividing by zero raises nothing, it gives
  an infinity, or NaN for \<open>0 / 0\<close>. A quotient overflows to an infinity when its
  magnitude reaches \<open>2^1024 - 2^970\<close>, half a unit in the last place above the
  largest double.
\<close>

definition float64_overflow :: real where
  "float64_overflow = 2 ^ 1024 - 2 ^ 970"

fun fdiv :: "pyfloat \<Rightarrow> pyfloat \<Rightarrow> pyfloat" where
  "fdiv NaN _ = NaN"
| "fdiv _ NaN = NaN"
| "fdiv (Fin x) (Fin y) =
     (if y = 0 then (if x = 0 then NaN else if 0 < x then PInf else NInf)
      else if float64_overflow \<le> \<bar>x / y\<bar> then (if 0 < x / y then PInf else NInf)
      else Fin (x / y))"
| "fdiv (Fin x) _ = Fin 0"
| "fdiv a (Fin y) = (if y < 0 then fneg a else a)"
| "fdiv _ _ = NaN"

fun fle :: "pyfloat \<Rightarrow> pyfloat \<Rightarrow> bool" where
  "fle NaN _ = False"
| "fle _ NaN = False"
| "fle (Fin x) (Fin y) = (x \<le> y)"
| "fle NInf _ = True"
| "fle _ PInf = True"
| "fle _ _ = False"

text \<open>\<open>numpy.minimum\<close> and \<open>numpy.maximum\<close> of two doubles: a NaN wins.\<close>

definition fmin :: "pyfloat \<Rightarrow> pyfloat \<Rightarrow> pyfloat" where
  "fmin a b = (if a = NaN \<or> b = NaN then NaN else if fle a b then a else b)"

definition fmax :: "pyfloat \<Rightarrow> pyfloat \<Rightarrow> pyfloat" where
  "fmax a b = (if a = NaN \<or> b = NaN then NaN else if fle a b then b else a)"

text \<open>A \<open>complex128\<close> value: real and imaginary part.\<close>

type_synonym pycomplex = "pyfloat \<times> pyfloat"

definition complex_of_float :: "pyfloat \<Rightarrow> pycomplex" where
  "complex_of_float x = (x, Fin 0)"

fun cadd :: "pycomplex \<Rightarrow> pycomplex \<Rightarrow> pycomplex" where
  "cadd (a, b) (c, d) = (fadd a c, fadd b d)"

fun cmul :: "pycomplex \<Rightarrow> pycomplex \<Rightarrow> pycomplex" where
  "cmul (a, b) (c, d) = (fsub (fmul a c) (fmul b d), fadd (fmul a d) (fmul b c))"

text \<open>Decimal text of an integer, as \<open>str\<close> and f-strings print it.\<close>

definition digit_char :: "nat \<Rightarrow> char" where
  "digit_char d = ''0123456789'' ! d"

fun str_nat :: "nat \<Rightarrow> string" where
  "str_nat n = (if n < 10 then [digit_char n] else str_nat (n div 10) @ [digit_char (n mod 10)])"

definition str_int :: "int \<Rightarrow> string" where
  "str_int i = (if i < 0 then CHR ''-'' # str_nat (nat (- i)) else str_nat (nat i))"

text \<open>
  The argument of \<open>read_samples\<close> is annotated \<open>Union[int, float]\<close>. The builtin
  \<open>int\<close> keeps an integer and truncates a finite float toward zero; it raises on
  NaN and on the infinities.
\<close>

datatype pynum = PyInt int | PyFloat pyfloat

fun py_int :: "pynum \<Rightarrow> pyerror + int" where
  "py_int (PyInt i) = Inr i"
| "py_int (PyFloat (Fin r)) = Inr (if 0 \<le> r then \<lfloor>r\<rfloor> else \<lceil>r\<rceil>)"
| "py_int (PyFloat NaN) = Inl (ValueError ''cannot convert float NaN to integer'')"
| "py_int (PyFloat _) = Inl (OverflowError ''cannot convert float infinity to integer'')"

section \<open>NumPy's random generator\<close>

text \<open>
  \<open>np.random.normal\<close> draws from NumPy's global generator. The generator's state
  is passed explicitly: it is the stream of standard normal deviates still to be
  drawn. A call with \<open>size = n\<close> consumes \<open>n\<close> of them, returns
  \<open>loc + scale * z\<close> for each, and raises \<open>ValueError\<close> on a negative scale.
\<close>

type_synonym rng = "nat \<Rightarrow> real"

definition np_random_normal :: "pyfloat \<Rightarrow> pyfloat \<Rightarrow> nat \<Rightarrow> rng \<Rightarrow> pyerror + (pyfloat list \<times> rng)" where
  "np_random_normal loc scale size' st =
     (if fsgn scale < 0 then Inl (ValueError ''scale < 0'')
      else Inr (map (\<lambda>i. fadd loc (fmul scale (Fin (st i)))) [0..<size'],
                (\<lambda>i. st (i + size'))))"

section \<open>sdr\_wrapper.py\<close>

text \<open>\<open>Gain = Union[float, str]\<close>\<close>

datatype Gain = GainFloat pyfloat | GainStr string

record MockRtlSdr =
  sample_rate :: pyfloat
  center_freq :: pyfloat
  gain :: Gain

definition MAX_READ_SAMPLES :: int where
  "MAX_READ_SAMPLES = 2 ^ 24"

text \<open>\<open>MockRtlSdr.__init__\<close>\<close>

definition MockRtlSdr_init :: MockRtlSdr where
  "MockRtlSdr_init =
     \<lparr>sample_rate = Fin 2048000, center_freq = Fin 1420400000, gain = GainFloat (Fin 1)\<rparr>"

text \<open>
  \<open>MockRtlSdr.close\<close>: the body is \<open>pass\<close>. A method returns its value
  (\<open>None\<close>, here the unit) and the device as it leaves it.
\<close>

definition close :: "MockRtlSdr \<Rightarrow> pyerror + (unit \<times> MockRtlSdr)" where
  "close self = Inr ((), self)"

text \<open>
  \<open>MockRtlSdr.get_gain\<close>: it returns \<open>self.gain\<close> itself unless that is
  \<open>"auto"\<close>, so another string comes back as a string.
\<close>

definition get_gain :: "MockRtlSdr \<Rightarrow> Gain" where
  "get_gain self = (if gain self = GainStr ''auto'' then GainFloat (Fin 1) else gain self)"

text \<open>\<open>0.01 * self.get_gain()\<close>: a float times a string raises \<open>TypeError\<close>.\<close>

definition quote :: char where
  "quote = CHR 0x27"

fun float_times :: "pyfloat \<Rightarrow> Gain \<Rightarrow> pyerror + pyfloat" where
  "float_times a (GainFloat g) = Inr (fmul a g)"
| "float_times a (GainStr s) =
     Inl (TypeError (''can'' @ [quote] @ ''t multiply sequence by non-int of type ''
                     @ [quote] @ ''float'' @ [quote]))"

text \<open>\<open>real + 1.0j * imag\<close> on two float arrays, element by element.\<close>

definition np_real_plus_j_imag :: "pyfloat list \<Rightarrow> pyfloat list \<Rightarrow> pycomplex list" where
  "np_real_plus_j_imag real' imag' =
     map2 (\<lambda>r i. cadd (complex_of_float r) (cmul (Fin 0, Fin 1) (complex_of_float i))) real' imag'"

definition libusb_no_mem :: "int \<Rightarrow> string" where
  "libusb_no_mem n =
     ''<LIBUSB_ERROR_NO_MEM (-11): Insufficient memory> '' @ ''Could not read '' @ str_int n @ '' bytes''"

text \<open>\<open>MockRtlSdr.read_samples\<close>, with the generator's state passed in and out.\<close>

definition read_samples ::
  "MockRtlSdr \<Rightarrow> pynum \<Rightarrow> rng \<Rightarrow> pyerror + (pycomplex list \<times> rng)" where
  "read_samples self num_samples st =
     (case py_int num_samples of
        Inl err \<Rightarrow> Inl err
      | Inr n \<Rightarrow>
          if \<not> n > 0 then Inl (ValueError ''Number of samples to read must be > 0'')
          else if n > MAX_READ_SAMPLES then Inl (LibUSBError (libusb_no_mem n))
          else
            (case float_times (Fin (1 / 100)) (get_gain self) of
               Inl err \<Rightarrow> Inl err
             | Inr scale \<Rightarrow>
                 (case np_random_normal (Fin 0) scale (nat n) st of
                    Inl err \<Rightarrow> Inl err
                  | Inr (real', st1) \<Rightarrow>
                      (case np_random_normal (Fin 0) scale (nat n) st1 of
                         Inl err \<Rightarrow> Inl err
                       | Inr (imag', st2) \<Rightarrow> Inr (np_real_plus_j_imag real' imag', st2)))))"

text \<open>
  The block the specification describes: \<open>n\<close> complex samples whose real parts, then
  imaginary parts, are drawn with mean 0 and the one given scale.
\<close>

definition gaussian_block :: "pyfloat \<Rightarrow> nat \<Rightarrow> rng \<Rightarrow> pyerror + (pycomplex list \<times> rng)" where
  "gaussian_block scale n st =
     (case np_random_normal (Fin 0) scale n st of
        Inl err \<Rightarrow> Inl err
      | Inr (re, st1) \<Rightarrow>
          (case np_random_normal (Fin 0) scale n st1 of
             Inl err \<Rightarrow> Inl err
           | Inr (im, st2) \<Rightarrow> Inr (np_real_plus_j_imag re im, st2)))"

text \<open>
  A gain with which a read goes through: \<open>"auto"\<close>, or a float that is not
  negative (NumPy refuses a negative scale).
\<close>

fun gain_usable :: "Gain \<Rightarrow> bool" where
  "gain_usable (GainFloat g) = (\<not> fsgn g < 0)"
| "gain_usable (GainStr s) = (s = ''auto'')"

subsection \<open>parse\_gain\<close>

text \<open>
  \<open>parse_gain\<close> is annotated to take a \<open>str\<close>; callers can also hand it \<open>None\<close>.
\<close>

datatype pyarg = PyNone | PyStr string

text \<open>
  The builtins \<open>float\<close> and \<open>repr\<close>. How Python reads a float literal and how it
  quotes a string are taken as parameters: \<open>str_to_float\<close> gives the value of a
  text that parses as a number and \<open>None\<close> for any other, \<open>repr_str\<close> is the
  \<open>repr\<close> of a string. \<open>float(None)\<close> raises \<open>TypeError\<close>; a text that does not
  parse raises \<open>ValueError\<close>, whose message ends with the \<open>repr\<close> of the text.
\<close>

definition py_repr :: "(string \<Rightarrow> string) \<Rightarrow> pyarg \<Rightarrow> string" where
  "py_repr repr_str x = (case x of PyNone \<Rightarrow> ''None'' | PyStr s \<Rightarrow> repr_str s)"

definition py_float ::
  "(string \<Rightarrow> pyfloat option) \<Rightarrow> (string \<Rightarrow> string) \<Rightarrow> pyarg \<Rightarrow> pyerror + pyfloat" where
  "py_float str_to_float repr_str x =
     (case x of
        PyNone \<Rightarrow>
          Inl (TypeError (''float() argument must be a string or a real number, not ''
                          @ [quote] @ ''NoneType'' @ [quote]))
      | PyStr s \<Rightarrow>
          (case str_to_float s of
             None \<Rightarrow> Inl (ValueError (''could not convert string to float: '' @ repr_str s))
           | Some f \<Rightarrow> Inr f))"

text \<open>
  \<open>parse_gain\<close>: the \<open>except\<close> clause catches \<open>TypeError\<close> only, so any other
  exception of \<open>float\<close> passes through as it is.
\<close>

definition parse_gain ::
  "(string \<Rightarrow> pyfloat option) \<Rightarrow> (string \<Rightarrow> string) \<Rightarrow> pyarg \<Rightarrow> pyerror + Gain" where
  "parse_gain str_to_float repr_str gain_str =
     (if gain_str = PyStr ''auto'' then Inr (GainStr ''auto'')
      else
        (case py_float str_to_float repr_str gain_str of
           Inr f \<Rightarrow> Inr (GainFloat f)
         | Inl (TypeError msg) \<Rightarrow>
             Inl (TypeError (''Invalid gain string: '' @ py_repr repr_str gain_str))
         | Inl err \<Rightarrow> Inl err))"

section \<open>tabletop\_app.py: normalising by the baseline\<close>

text \<open>
  The arrays are one-dimensional NumPy arrays of doubles. \<open>a / b\<close> on two arrays
  works element by element when the lengths agree, stretches an array of length 1
  to the other's length (broadcasting), and raises \<open>ValueError\<close> otherwise.
\<close>

definition broadcast_error :: "nat \<Rightarrow> nat \<Rightarrow> string" where
  "broadcast_error m n =
     ''operands could not be broadcast together with shapes ('' @ str_nat m @ '',) (''
       @ str_nat n @ '',) ''"

definition np_divide :: "pyfloat list \<Rightarrow> pyfloat list \<Rightarrow> pyerror + pyfloat list" where
  "np_divide x1 x2 =
     (if length x1 = length x2 then Inr (map2 fdiv x1 x2)
      else
        (case x2 of
           [b] \<Rightarrow> Inr (map (\<lambda>a. fdiv a b) x1)
         | _ \<Rightarrow>
            (case x1 of
               [a] \<Rightarrow> Inr (map (\<lambda>b. fdiv a b) x2)
             | _ \<Rightarrow> Inl (ValueError (broadcast_error (length x1) (length x2))))))"

text \<open>\<open>np.min\<close> and \<open>np.max\<close>: an empty array has no minimum and raises.\<close>

definition np_min :: "pyfloat list \<Rightarrow> pyerror + pyfloat" where
  "np_min a =
     (case a of
        [] \<Rightarrow> Inl (ValueError ''zero-size array to reduction operation minimum which has no identity'')
      | x # xs \<Rightarrow> Inr (foldl fmin x xs))"

definition np_max :: "pyfloat list \<Rightarrow> pyerror + pyfloat" where
  "np_max a =
     (case a of
        [] \<Rightarrow> Inl (ValueError ''zero-size array to reduction operation maximum which has no identity'')
      | x # xs \<Rightarrow> Inr (foldl fmax x xs))"

text \<open>
  The three statements of \<open>TabletopApp.sky_obs\<close> under the comment
  "Normalise by baseline power spectrum". They stand outside the method's
  \<open>try\<close>, so an exception raised here leaves \<open>sky_obs\<close>.

  The second and the third statement: the ratio minus its minimum, divided by the
  maximum of what is left.
\<close>

definition sky_obs_rescale :: "pyfloat list \<Rightarrow> pyerror + pyfloat list" where
  "sky_obs_rescale ratio =
     (case np_min ratio of
        Inl err \<Rightarrow> Inl err
      | Inr lo \<Rightarrow>
          (let HIspectrum = map (\<lambda>x. fsub x lo) ratio in
           (case np_max HIspectrum of
              Inl err \<Rightarrow> Inl err
            | Inr hi \<Rightarrow> Inr (map (\<lambda>x. fdiv x hi) HIspectrum))))"

text \<open>The first statement, the ratio, and then the other two.\<close>

definition sky_obs_normalise :: "pyfloat list \<Rightarrow> pyfloat list \<Rightarrow> pyerror + pyfloat list" where
  "sky_obs_normalise power_spectrum baseline_power_spectrum =
     (case np_divide power_spectrum baseline_power_spectrum of
        Inl err \<Rightarrow> Inl err
      | Inr ratio \<Rightarrow> sky_obs_rescale ratio)"

text \<open>Words of the specification about spectra.\<close>

fun positive_finite :: "pyfloat \<Rightarrow> bool" where
  "positive_finite (Fin r) = (0 < r)"
| "positive_finite _ = False"

fun nonneg_finite :: "pyfloat \<Rightarrow> bool" where
  "nonneg_finite (Fin r) = (0 \<le> r)"
| "nonneg_finite _ = False"

fun in_unit_interval :: "pyfloat \<Rightarrow> bool" where
  "in_unit_interval (Fin r) = (0 \<le> r \<and> r \<le> 1)"
| "in_unit_interval _ = False"

fun all_equal :: "'a list \<Rightarrow> bool" where
  "all_equal [] = True"
| "all_equal (x # xs) = list_all (\<lambda>y. y = x) xs"

text \<open>Words of the specification about gain texts: the input parses as a number.\<close>

definition parses_as_number :: "(string \<Rightarrow> pyfloat option) \<Rightarrow> pyarg \<Rightarrow> bool" where
  "parses_as_number str_to_float x =
     (case x of PyNone \<Rightarrow> False | PyStr s \<Rightarrow> str_to_float s \<noteq> None)"

section \<open>Closing a device\<close>

text \<open>
  C9: for every device, a newly constructed one included, \<open>close\<close> raises nothing,
  returns \<open>None\<close> and leaves \<open>sample_rate\<close>, \<open>center_freq\<close> and \<open>gain\<close> as they were.
\<close>

theorem close_no_effect:
  "close self = Inr ((), self) \<and> close MockRtlSdr_init = Inr ((), MockRtlSdr_init)"
  by (simp add: close_def)

section \<open>Reading samples\<close>

lemma length_np_random_normal:
  "np_random_normal loc scale n st = Inr (xs, st') \<Longrightarrow> length xs = n"
  by (auto simp: np_random_normal_def split: if_splits)

lemma np_random_normal_ok:
  "\<not> fsgn scale < 0 \<Longrightarrow> \<exists>xs st'. np_random_normal loc scale n st = Inr (xs, st')"
  by (simp add: np_random_normal_def)

lemma fsgn_fmul_hundredth: "fsgn (fmul (Fin (1 / 100)) g) < 0 \<longleftrightarrow> fsgn g < 0"
  by (cases g) (auto simp: mult_less_0_iff)

lemma float_times_usable:
  "gain_usable (gain self) \<Longrightarrow>
   \<exists>scale. float_times (Fin (1 / 100)) (get_gain self) = Inr scale \<and> \<not> fsgn scale < 0"
  by (cases "gain self") (auto simp: get_gain_def fsgn_fmul_hundredth)

lemma length_np_real_plus_j_imag:
  "length (np_real_plus_j_imag re im) = min (length re) (length im)"
  by (simp add: np_real_plus_j_imag_def)

text \<open>
  C1: when \<open>int(num_samples)\<close> is \<open>n\<close> with \<open>1 \<le> n \<le> 2^24\<close>, \<open>read_samples\<close> on a
  device with a usable gain returns a block of exactly \<open>n\<close> samples; when
  \<open>n \<le> 0\<close> it raises \<open>ValueError\<close> and returns no block, whatever the device.
\<close>

theorem read_samples_length:
  "py_int num_samples = Inr n \<Longrightarrow>
   (1 \<le> n \<and> n \<le> 2 ^ 24 \<longrightarrow> gain_usable (gain self) \<longrightarrow>
      (\<exists>block st'. read_samples self num_samples st = Inr (block, st') \<and> int (length block) = n)) \<and>
   (n \<le> 0 \<longrightarrow>
      read_samples self num_samples st = Inl (ValueError ''Number of samples to read must be > 0''))"
proof (intro conjI impI)
  assume n: "py_int num_samples = Inr n" and range: "1 \<le> n \<and> n \<le> 2 ^ 24"
    and g: "gain_usable (gain self)"
  from float_times_usable [OF g] obtain scale where
    scale: "float_times (Fin (1 / 100)) (get_gain self) = Inr scale" "\<not> fsgn scale < 0"
    by blast
  from np_random_normal_ok [OF scale(2)] obtain re st1 where
    re: "np_random_normal (Fin 0) scale (nat n) st = Inr (re, st1)" by blast
  from np_random_normal_ok [OF scale(2)] obtain im st2 where
    im: "np_random_normal (Fin 0) scale (nat n) st1 = Inr (im, st2)" by blast
  have len: "length re = nat n" "length im = nat n"
    using re im by (auto dest: length_np_random_normal)
  have "read_samples self num_samples st = Inr (np_real_plus_j_imag re im, st2)"
    using n range scale(1) re im by (simp add: read_samples_def MAX_READ_SAMPLES_def)
  moreover have "int (length (np_real_plus_j_imag re im)) = n"
    using len range by (simp add: length_np_real_plus_j_imag)
  ultimately show "\<exists>block st'. read_samples self num_samples st = Inr (block, st') \<and> int (length block) = n"
    by blast
next
  assume "py_int num_samples = Inr n" "n \<le> 0"
  then show "read_samples self num_samples st = Inl (ValueError ''Number of samples to read must be > 0'')"
    by (simp add: read_samples_def)
qed

theorem read_samples_length_witness:
  "py_int (PyFloat (Fin (5 / 2))) = Inr 2 \<and> (1::int) \<le> 2 \<and> (2::int) \<le> 2 ^ 24 \<and>
   gain_usable (gain MockRtlSdr_init) \<and>
   (\<exists>block st'. read_samples MockRtlSdr_init (PyFloat (Fin (5 / 2))) (\<lambda>i. 1) = Inr (block, st')
      \<and> int (length block) = 2) \<and>
   py_int (PyInt 0) = Inr 0 \<and> (0::int) \<le> 0 \<and>
   read_samples MockRtlSdr_init (PyInt 0) (\<lambda>i. 1) = Inl (ValueError ''Number of samples to read must be > 0'')"
proof -
  have a: "py_int (PyFloat (Fin (5 / 2))) = Inr 2" by simp
  have b: "py_int (PyInt 0) = Inr 0" by simp
  have g: "gain_usable (gain MockRtlSdr_init)" by (simp add: MockRtlSdr_init_def)
  show ?thesis
    using a b g read_samples_length [OF a, of MockRtlSdr_init "\<lambda>i. 1"]
      read_samples_length [OF b, of MockRtlSdr_init "\<lambda>i. 1"]
    by simp
qed



lemma map2_map_same: "map2 f (map g xs) (map h xs) = map (\<lambda>x. f (g x) (h x)) xs"
  by (induction xs) simp_all

lemma real_plus_j_imag_finite:
  "cadd (complex_of_float (Fin a)) (cmul (Fin 0, Fin 1) (complex_of_float (Fin b))) = (Fin a, Fin b)"
  by (simp add: complex_of_float_def fsub_def)

lemma gaussian_block_finite:
  "0 \<le> s \<Longrightarrow>
   gaussian_block (Fin s) m st =
     Inr (map (\<lambda>k. (Fin (s * st k), Fin (s * st (k + m)))) [0..<m], (\<lambda>i. st (i + m + m)))"
  by (simp add: gaussian_block_def np_random_normal_def np_real_plus_j_imag_def
      map2_map_same real_plus_j_imag_finite)

text \<open>
  C5: on a valid count, \<open>read_samples\<close> draws the real and the imaginary parts with
  one scale, 0.01 times the effective gain: 0.01 times 1.0 when the gain is
  \<open>"auto"\<close>, 0.01 times the gain when it is a number. For a finite scale
  \<open>s \<ge> 0\<close> the samples are \<open>s\<close> times the standard normal deviates drawn.
\<close>

theorem read_samples_scale:
  "py_int num_samples = Inr n \<Longrightarrow> 0 < n \<Longrightarrow> n \<le> 2 ^ 24 \<Longrightarrow>
   (gain self = GainStr ''auto'' \<longrightarrow>
      read_samples self num_samples st = gaussian_block (fmul (Fin (1 / 100)) (Fin 1)) (nat n) st) \<and>
   (gain self = GainFloat g \<longrightarrow>
      read_samples self num_samples st = gaussian_block (fmul (Fin (1 / 100)) g) (nat n) st) \<and>
   (0 \<le> s \<longrightarrow>
      gaussian_block (Fin s) m st =
        Inr (map (\<lambda>k. (Fin (s * st k), Fin (s * st (k + m)))) [0..<m], (\<lambda>i. st (i + m + m))))"
proof (intro conjI impI)
  assume "py_int num_samples = Inr n" "0 < n" "n \<le> 2 ^ 24" "gain self = GainStr ''auto''"
  then show "read_samples self num_samples st = gaussian_block (fmul (Fin (1 / 100)) (Fin 1)) (nat n) st"
    by (simp add: read_samples_def MAX_READ_SAMPLES_def get_gain_def gaussian_block_def)
next
  assume "py_int num_samples = Inr n" "0 < n" "n \<le> 2 ^ 24" "gain self = GainFloat g"
  then show "read_samples self num_samples st = gaussian_block (fmul (Fin (1 / 100)) g) (nat n) st"
    by (simp add: read_samples_def MAX_READ_SAMPLES_def get_gain_def gaussian_block_def)
next
  assume "0 \<le> s"
  then show "gaussian_block (Fin s) m st =
        Inr (map (\<lambda>k. (Fin (s * st k), Fin (s * st (k + m)))) [0..<m], (\<lambda>i. st (i + m + m)))"
    by (rule gaussian_block_finite)
qed

theorem read_samples_scale_witness:
  "py_int (PyInt 2) = Inr 2 \<and> (0::int) < 2 \<and> (2::int) \<le> 2 ^ 24 \<and>
   gain (MockRtlSdr_init\<lparr>gain := GainStr ''auto''\<rparr>) = GainStr ''auto'' \<and>
   read_samples (MockRtlSdr_init\<lparr>gain := GainStr ''auto''\<rparr>) (PyInt 2) (\<lambda>i. 1) =
     gaussian_block (Fin (1 / 100)) 2 (\<lambda>i. 1) \<and>
   gain MockRtlSdr_init = GainFloat (Fin 1) \<and>
   read_samples MockRtlSdr_init (PyInt 2) (\<lambda>i. 1) = gaussian_block (Fin (1 / 100)) 2 (\<lambda>i. 1) \<and>
   (0::real) \<le> 1 / 100 \<and>
   fst (projr (gaussian_block (Fin (1 / 100)) 2 (\<lambda>i. 1))) =
     [(Fin (1 / 100), Fin (1 / 100)), (Fin (1 / 100), Fin (1 / 100))]"
proof -
  have a: "py_int (PyInt 2) = Inr 2" by simp
  have b: "(0::int) < 2" "(2::int) \<le> 2 ^ 24" by simp_all
  show ?thesis
    using a b
      read_samples_scale [OF a b, of "MockRtlSdr_init\<lparr>gain := GainStr ''auto''\<rparr>" "\<lambda>i. 1" "Fin 1" "1 / 100" 2]
      read_samples_scale [OF a b, of MockRtlSdr_init "\<lambda>i. 1" "Fin 1" "1 / 100" 2]
    by (simp add: MockRtlSdr_init_def upt_rec)
qed

text \<open>
  C10: \<open>read_samples(x)\<close> is \<open>read_samples(int(x))\<close>, an exception of \<open>int\<close>
  included; \<open>int\<close> truncates a finite float toward zero; and for \<open>0 < x < 1\<close>
  the read raises \<open>ValueError\<close>.
\<close>

theorem read_samples_truncates:
  "read_samples self num_samples st =
     (case py_int num_samples of
        Inl err \<Rightarrow> Inl err
      | Inr n \<Rightarrow> read_samples self (PyInt n) st) \<and>
   (py_int (PyFloat (Fin r)) = Inr i \<longrightarrow> \<bar>real_of_int i\<bar> \<le> \<bar>r\<bar> \<and> \<bar>r - real_of_int i\<bar> < 1) \<and>
   (0 < r \<and> r < 1 \<longrightarrow>
      read_samples self (PyFloat (Fin r)) st = Inl (ValueError ''Number of samples to read must be > 0''))"
proof (intro conjI impI)
  show "read_samples self num_samples st =
     (case py_int num_samples of Inl err \<Rightarrow> Inl err | Inr n \<Rightarrow> read_samples self (PyInt n) st)"
    by (simp add: read_samples_def split: sum.splits)
next
  assume "py_int (PyFloat (Fin r)) = Inr i"
  then have i: "i = (if 0 \<le> r then \<lfloor>r\<rfloor> else \<lceil>r\<rceil>)" by simp
  show "\<bar>real_of_int i\<bar> \<le> \<bar>r\<bar>" unfolding i by (simp; linarith)
  show "\<bar>r - real_of_int i\<bar> < 1" unfolding i by (simp; linarith)
next
  assume "0 < r \<and> r < 1"
  then have "\<lfloor>r\<rfloor> = 0" by (simp add: floor_eq_iff)
  with \<open>0 < r \<and> r < 1\<close> show "read_samples self (PyFloat (Fin r)) st = Inl (ValueError ''Number of samples to read must be > 0'')"
    by (simp add: read_samples_def)
qed

theorem read_samples_truncates_witness:
  "read_samples MockRtlSdr_init (PyFloat (Fin (7 / 2))) (\<lambda>i. 1) = read_samples MockRtlSdr_init (PyInt 3) (\<lambda>i. 1) \<and>
   py_int (PyFloat (Fin (- 7 / 2))) = Inr (- 3) \<and> \<bar>real_of_int (- 3)\<bar> \<le> \<bar>- 7 / 2 :: real\<bar> \<and>
   (0::real) < 1 / 2 \<and> (1 / 2 :: real) < 1 \<and>
   read_samples MockRtlSdr_init (PyFloat (Fin (1 / 2))) (\<lambda>i. 1) = Inl (ValueError ''Number of samples to read must be > 0'')"
proof -
  have a: "py_int (PyFloat (Fin (- 7 / 2))) = Inr (- 3)" by simp
  show ?thesis
    using a
      read_samples_truncates [of MockRtlSdr_init "PyFloat (Fin (7 / 2))" "\<lambda>i. 1" "- 7 / 2" "- 3"]
      read_samples_truncates [of MockRtlSdr_init "PyInt 0" "\<lambda>i. 1" "1 / 2" 0]
    by simp
qed

section \<open>Normalising by the baseline\<close>

lemma nonneg_finite_reals:
  "list_all nonneg_finite xs \<Longrightarrow> \<exists>rs. xs = map Fin rs \<and> (\<forall>r\<in>set rs. 0 \<le> r)"
proof (induction xs)
  case Nil
  then show ?case by simp
next
  case (Cons x xs)
  then obtain rs where rs: "xs = map Fin rs" "\<forall>r\<in>set rs. 0 \<le> r" by auto
  from Cons.prems obtain r where r: "x = Fin r" "0 \<le> r" by (cases x) auto
  have "x # xs = map Fin (r # rs) \<and> (\<forall>q\<in>set (r # rs). 0 \<le> q)" using rs r by simp
  then show ?case by (rule exI [of _ "r # rs"])
qed

lemma foldl_fmin_finite: "foldl fmin (Fin x) (map Fin xs) = Fin (foldl min x xs)"
  by (induction xs arbitrary: x) (simp_all add: fmin_def min_def)

lemma foldl_fmax_finite: "foldl fmax (Fin x) (map Fin xs) = Fin (foldl max x xs)"
  by (induction xs arbitrary: x) (simp_all add: fmax_def max_def)

lemma foldl_min_Min: "foldl min (x::real) xs = Min (set (x # xs))"
proof -
  have "foldl min x xs = fold min xs x"
    by (simp add: foldl_conv_fold min.commute)
  then show ?thesis by (simp only: Min.set_eq_fold)
qed

lemma foldl_max_Max: "foldl max (x::real) xs = Max (set (x # xs))"
proof -
  have "foldl max x xs = fold max xs x"
    by (simp add: foldl_conv_fold max.commute)
  then show ?thesis by (simp only: Max.set_eq_fold)
qed

lemma np_min_finite: "rs \<noteq> [] \<Longrightarrow> np_min (map Fin rs) = Inr (Fin (Min (set rs)))"
  by (cases rs) (simp_all add: np_min_def foldl_fmin_finite foldl_min_Min)

lemma np_max_finite: "rs \<noteq> [] \<Longrightarrow> np_max (map Fin rs) = Inr (Fin (Max (set rs)))"
  by (cases rs) (simp_all add: np_max_def foldl_fmax_finite foldl_max_Max)

lemma all_equal_iff: "all_equal xs \<longleftrightarrow> (\<forall>a\<in>set xs. \<forall>b\<in>set xs. a = b)"
proof (cases xs)
  case Nil
  then show ?thesis by simp
next
  case (Cons y ys)
  have "list_all (\<lambda>z. z = y) ys \<longleftrightarrow> (\<forall>a\<in>set (y # ys). \<forall>b\<in>set (y # ys). a = b)"
  proof
    assume "list_all (\<lambda>z. z = y) ys"
    then have "\<forall>a\<in>set (y # ys). a = y" by (simp add: list_all_iff)
    then show "\<forall>a\<in>set (y # ys). \<forall>b\<in>set (y # ys). a = b" by metis
  next
    assume "\<forall>a\<in>set (y # ys). \<forall>b\<in>set (y # ys). a = b"
    then have "\<forall>a\<in>set ys. a = y" by simp
    then show "list_all (\<lambda>z. z = y) ys" by (simp add: list_all_iff)
  qed
  with Cons show ?thesis by simp
qed

lemma float64_overflow_gt_1: "1 < float64_overflow"
  by (simp add: float64_overflow_def)

lemma fdiv_unit: "0 < h \<Longrightarrow> 0 \<le> d \<Longrightarrow> d \<le> h \<Longrightarrow> fdiv (Fin d) (Fin h) = Fin (d / h)"
proof -
  assume h: "0 < h" and d: "0 \<le> d" "d \<le> h"
  then have "0 \<le> d / h" "d / h \<le> 1" by simp_all
  then have "\<bar>d / h\<bar> < float64_overflow" using float64_overflow_gt_1 by linarith
  with h show ?thesis by simp
qed

text \<open>Rescaling a finite ratio, over the reals.\<close>

lemma sky_obs_rescale_finite:
  assumes ne: "rs \<noteq> []"
  defines "lo \<equiv> Min (set rs)"
  defines "hi \<equiv> Max (set rs) - lo"
  shows "sky_obs_rescale (map Fin rs) = Inr (map (\<lambda>r. fdiv (Fin (r - lo)) (Fin hi)) rs)"
proof -
  have lo: "np_min (map Fin rs) = Inr (Fin lo)"
    using ne by (simp add: np_min_finite lo_def)
  have shift: "map (\<lambda>x. fsub x (Fin lo)) (map Fin rs) = map Fin (map (\<lambda>r. r - lo) rs)"
    by (simp add: fsub_def)
  have "Max (set (map (\<lambda>r. r - lo) rs)) = Max ((\<lambda>r. r - lo) ` set rs)" by simp
  also have "\<dots> = Max (set rs) - lo"
    using ne by (intro mono_Max_commute [symmetric]) (auto simp: mono_def)
  finally have Max_shift: "Max (set (map (\<lambda>r. r - lo) rs)) = hi" by (simp only: hi_def)
  have "np_max (map Fin (map (\<lambda>r. r - lo) rs)) = Inr (Fin (Max (set (map (\<lambda>r. r - lo) rs))))"
    by (rule np_max_finite) (simp add: ne)
  then have hi: "np_max (map Fin (map (\<lambda>r. r - lo) rs)) = Inr (Fin hi)"
    by (simp only: Max_shift)
  have "sky_obs_rescale (map Fin rs) =
          Inr (map (\<lambda>x. fdiv x (Fin hi)) (map Fin (map (\<lambda>r. r - lo) rs)))"
    unfolding sky_obs_rescale_def by (simp only: lo shift hi Let_def sum.case)
  then show ?thesis by (simp add: comp_def)
qed

text \<open>
  C2, as the code has it: the normalisation is the division followed by the
  rescaling of the ratio. For a ratio that is finite and not negative in every
  bin and not all-equal, the rescaling returns an array of the same length with
  every entry in [0, 1], one entry 0 and one entry 1. This rests on \<open>x - x = 0\<close>,
  \<open>x / x = 1\<close> and on the order of the entries only.
\<close>

theorem rescale_range:
  assumes fin: "list_all nonneg_finite ratio"
    and neq: "\<not> all_equal ratio"
  shows "sky_obs_normalise obs base =
           (case np_divide obs base of Inl err \<Rightarrow> Inl err | Inr r \<Rightarrow> sky_obs_rescale r) \<and>
         (\<exists>out. sky_obs_rescale ratio = Inr out \<and> length out = length ratio \<and>
            list_all in_unit_interval out \<and> Fin 0 \<in> set out \<and> Fin 1 \<in> set out)"
proof
  show "sky_obs_normalise obs base =
          (case np_divide obs base of Inl err \<Rightarrow> Inl err | Inr r \<Rightarrow> sky_obs_rescale r)"
    by (simp add: sky_obs_normalise_def)
next
  from nonneg_finite_reals [OF fin] obtain rs where ratio: "ratio = map Fin rs" by blast
  define lo where "lo = Min (set rs)"
  define hi where "hi = Max (set rs) - lo"
  from neq obtain a b where ab: "a \<in> set rs" "b \<in> set rs" "a \<noteq> b"
    unfolding ratio all_equal_iff by auto
  then have rs_ne: "rs \<noteq> []" by auto
  have lo_in: "lo \<in> set rs" unfolding lo_def using rs_ne by (intro Min_in) simp_all
  have hi_in: "Max (set rs) \<in> set rs" using rs_ne by (intro Max_in) simp_all
  have lo_le: "lo \<le> r" if "r \<in> set rs" for r unfolding lo_def using that by simp
  have le_hi: "r \<le> Max (set rs)" if "r \<in> set rs" for r using that by simp
  have "lo < Max (set rs)"
  proof (rule ccontr)
    assume "\<not> lo < Max (set rs)"
    then have "Max (set rs) \<le> lo" by simp
    with lo_le [OF ab(1)] le_hi [OF ab(1)] lo_le [OF ab(2)] le_hi [OF ab(2)] ab(3)
    show False by linarith
  qed
  then have hi_pos: "0 < hi" by (simp add: hi_def)
  define out where "out = map (\<lambda>r. Fin ((r - lo) / hi)) rs"
  have "sky_obs_rescale ratio = Inr (map (\<lambda>r. fdiv (Fin (r - lo)) (Fin hi)) rs)"
    unfolding ratio lo_def hi_def by (rule sky_obs_rescale_finite [OF rs_ne])
  also have "map (\<lambda>r. fdiv (Fin (r - lo)) (Fin hi)) rs = out"
    unfolding out_def
  proof (rule map_cong [OF refl])
    fix r assume r: "r \<in> set rs"
    have "r - lo \<le> hi" using le_hi [OF r] by (simp add: hi_def)
    with lo_le [OF r] hi_pos show "fdiv (Fin (r - lo)) (Fin hi) = Fin ((r - lo) / hi)"
      by (intro fdiv_unit) simp_all
  qed
  finally have res: "sky_obs_rescale ratio = Inr out" .
  have length: "length out = length ratio"
    by (simp add: out_def ratio)
  have unit: "list_all in_unit_interval out"
    unfolding list_all_iff
  proof
    fix y assume "y \<in> set out"
    then obtain r where r: "r \<in> set rs" and y: "y = Fin ((r - lo) / hi)"
      by (auto simp: out_def)
    have "r - lo \<le> hi" using le_hi [OF r] by (simp add: hi_def)
    with lo_le [OF r] hi_pos show "in_unit_interval y" by (simp add: y)
  qed
  have zero: "Fin 0 \<in> set out"
  proof -
    have "(\<lambda>r. Fin ((r - lo) / hi)) lo \<in> (\<lambda>r. Fin ((r - lo) / hi)) ` set rs"
      using lo_in by (rule imageI)
    then show ?thesis by (simp add: out_def)
  qed
  have one: "Fin 1 \<in> set out"
  proof -
    have "(\<lambda>r. Fin ((r - lo) / hi)) (Max (set rs)) \<in> (\<lambda>r. Fin ((r - lo) / hi)) ` set rs"
      using hi_in by (rule imageI)
    then show ?thesis using hi_pos by (simp add: out_def hi_def)
  qed
  from res length unit zero one
  show "\<exists>out. sky_obs_rescale ratio = Inr out \<and> length out = length ratio \<and>
          list_all in_unit_interval out \<and> Fin 0 \<in> set out \<and> Fin 1 \<in> set out"
    by blast
qed

theorem rescale_range_witness:
  "list_all nonneg_finite [Fin 3, Fin 4, Fin 5] \<and> \<not> all_equal [Fin 3, Fin 4, Fin 5] \<and>
   sky_obs_normalise [Fin 3, Fin 8, Fin 5] [Fin 1, Fin 2, Fin 1] = sky_obs_rescale [Fin 3, Fin 4, Fin 5] \<and>
   sky_obs_rescale [Fin 3, Fin 4, Fin 5] = Inr [Fin 0, Fin (1 / 2), Fin 1] \<and>
   (\<exists>out. sky_obs_rescale [Fin 3, Fin 4, Fin 5] = Inr out \<and>
      length out = length [Fin 3, Fin 4, Fin 5] \<and>
      list_all in_unit_interval out \<and> Fin 0 \<in> set out \<and> Fin 1 \<in> set out)"
proof -
  have a: "list_all nonneg_finite [Fin 3, Fin 4, Fin 5]" by simp
  have b: "\<not> all_equal [Fin 3, Fin 4, Fin 5]" by simp
  have c: "np_divide [Fin 3, Fin 8, Fin 5] [Fin 1, Fin 2, Fin 1] = Inr [Fin 3, Fin 4, Fin 5]"
    by (simp add: np_divide_def float64_overflow_def)
  have d: "sky_obs_rescale [Fin 3, Fin 4, Fin 5] = Inr [Fin 0, Fin (1 / 2), Fin 1]"
    by (simp add: sky_obs_rescale_def np_min_def np_max_def fmin_def fmax_def fsub_def
        float64_overflow_def)
  from a b c d rescale_range [OF a b, of "[Fin 3, Fin 8, Fin 5]" "[Fin 1, Fin 2, Fin 1]"]
  show ?thesis by simp
qed

text \<open>
  Two arrays of finite, strictly positive doubles whose quotient overflows in the
  first bin: the ratio is \<open>[inf, 1]\<close> and the output \<open>[nan, 0]\<close>.
\<close>

theorem normalise_overflow_counterexample:
  "length [Fin (2 ^ 512), Fin 1] = length [Fin (1 / 2 ^ 513), Fin 1] \<and>
   list_all positive_finite [Fin (2 ^ 512), Fin 1] \<and>
   list_all positive_finite [Fin (1 / 2 ^ 513), Fin 1] \<and>
   \<not> all_equal (map2 fdiv [Fin (2 ^ 512), Fin 1] [Fin (1 / 2 ^ 513), Fin 1]) \<and>
   sky_obs_normalise [Fin (2 ^ 512), Fin 1] [Fin (1 / 2 ^ 513), Fin 1] = Inr [NaN, Fin 0]"
  by (simp add: sky_obs_normalise_def sky_obs_rescale_def np_divide_def np_min_def np_max_def
      fmin_def fmax_def fsub_def float64_overflow_def)

subsection \<open>Unequal lengths\<close>

lemma map2_replicate_right: "map2 f xs (replicate (length xs) b) = map (\<lambda>a. f a b) xs"
  by (induction xs) simp_all

lemma map2_replicate_left: "map2 f (replicate (length ys) a) ys = map (\<lambda>b. f a b) ys"
  by (induction ys) simp_all

lemma np_divide_mismatch:
  "length x1 \<noteq> length x2 \<Longrightarrow> length x1 \<noteq> 1 \<Longrightarrow> length x2 \<noteq> 1 \<Longrightarrow>
   np_divide x1 x2 = Inl (ValueError (broadcast_error (length x1) (length x2)))"
  by (cases x1 rule: remdups_adj.cases; cases x2 rule: remdups_adj.cases)
     (simp_all add: np_divide_def)

lemma np_divide_broadcast_right:
  "np_divide x1 [b] = np_divide x1 (replicate (length x1) b)"
  by (cases x1 rule: remdups_adj.cases)
     (simp_all add: np_divide_def map2_replicate_right [of fdiv, simplified])

lemma np_divide_broadcast_left:
  "np_divide [a] x2 = np_divide (replicate (length x2) a) x2"
  by (cases x2 rule: remdups_adj.cases)
     (simp_all add: np_divide_def map2_replicate_left [of fdiv, simplified])

text \<open>
  C6, as the code has it: for arrays of unequal length the division raises
  NumPy's \<open>ValueError\<close> and the normalisation gives no output, as long as neither
  length is 1. An array of length 1 is broadcast: the normalisation then runs as
  on that value repeated to the other array's length.
\<close>

theorem normalise_length_mismatch:
  "length obs \<noteq> length base \<Longrightarrow>
   (length obs \<noteq> 1 \<and> length base \<noteq> 1 \<longrightarrow>
      sky_obs_normalise obs base = Inl (ValueError (broadcast_error (length obs) (length base)))) \<and>
   (base = [b] \<longrightarrow> sky_obs_normalise obs base = sky_obs_normalise obs (replicate (length obs) b)) \<and>
   (obs = [a] \<longrightarrow> sky_obs_normalise obs base = sky_obs_normalise (replicate (length base) a) base)"
  by (simp add: sky_obs_normalise_def np_divide_mismatch
      np_divide_broadcast_right [symmetric] np_divide_broadcast_left [symmetric])

theorem normalise_length_mismatch_witness:
  "length [Fin 1, Fin 2, Fin 3] \<noteq> length [Fin 1, Fin 2] \<and>
   sky_obs_normalise [Fin 1, Fin 2, Fin 3] [Fin 1, Fin 2] =
     Inl (ValueError (broadcast_error (length [Fin 1, Fin 2, Fin 3]) (length [Fin 1, Fin 2]))) \<and>
   length [Fin 2, Fin 4, Fin 6] \<noteq> length [Fin 2] \<and>
   sky_obs_normalise [Fin 2, Fin 4, Fin 6] [Fin 2] =
     sky_obs_normalise [Fin 2, Fin 4, Fin 6] [Fin 2, Fin 2, Fin 2] \<and>
   length [Fin 6] \<noteq> length [Fin 1, Fin 2] \<and>
   sky_obs_normalise [Fin 6] [Fin 1, Fin 2] = sky_obs_normalise [Fin 6, Fin 6] [Fin 1, Fin 2]"
proof -
  have a: "length [Fin 1, Fin 2, Fin 3] \<noteq> length [Fin 1, Fin 2]" by simp
  have b: "length [Fin 2, Fin 4, Fin 6] \<noteq> length [Fin 2]" by simp
  have c: "length [Fin 6] \<noteq> length [Fin 1, Fin 2]" by simp
  show ?thesis
    using a b c normalise_length_mismatch [OF a, of "Fin 0" "Fin 0"]
      normalise_length_mismatch [OF b, of "Fin 2" "Fin 0"]
      normalise_length_mismatch [OF c, of "Fin 0" "Fin 6"]
    by (simp add: numeral_3_eq_3 numeral_2_eq_2)
qed

text \<open>
  An observation of three bins against a baseline of one bin is normalised, with
  no error.
\<close>

theorem normalise_broadcast_counterexample:
  "length [Fin 2, Fin 4, Fin 6] \<noteq> length [Fin 2] \<and>
   sky_obs_normalise [Fin 2, Fin 4, Fin 6] [Fin 2] = Inr [Fin 0, Fin (1 / 2), Fin 1]"
  by (simp add: sky_obs_normalise_def sky_obs_rescale_def np_divide_def np_min_def np_max_def
      fmin_def fmax_def fsub_def float64_overflow_def)

subsection \<open>All-equal ratio\<close>

lemma all_equal_replicate:
  "all_equal xs \<Longrightarrow> xs \<noteq> [] \<Longrightarrow> \<exists>v. xs = replicate (length xs) v"
proof (cases xs)
  case Nil
  assume "xs \<noteq> []" with Nil show ?thesis by simp
next
  case (Cons y ys)
  assume "all_equal xs"
  with Cons have "\<forall>z\<in>set ys. z = y" by (simp add: list_all_iff)
  then have "ys = replicate (length ys) y" by (simp add: replicate_length_same)
  with Cons have "xs = replicate (length xs) y" by simp
  then show ?thesis ..
qed

lemma fmin_same: "fmin v v = v"
  by (cases v) (simp_all add: fmin_def)

lemma fmax_same: "fmax v v = v"
  by (cases v) (simp_all add: fmax_def)

lemma foldl_same: "f v v = v \<Longrightarrow> foldl f v (replicate k v) = v"
  by (induction k) simp_all

lemma fdiv_zero_range: "fdiv (fsub v v) (fsub v v) = NaN"
  by (cases v) (simp_all add: fsub_def)

text \<open>
  C7, as the code has it: for non-empty arrays of the same length whose
  element-wise ratio is all-equal, the normalisation detects nothing and raises
  nothing: it returns an array of that length whose every entry is NaN.
\<close>

theorem normalise_degenerate_nan:
  assumes len: "length obs = length base" and ne: "obs \<noteq> []"
    and eq: "all_equal (map2 fdiv obs base)"
  shows "sky_obs_normalise obs base = Inr (replicate (length obs) NaN)"
proof -
  have n: "length (map2 fdiv obs base) = length obs" using len by simp
  then have "map2 fdiv obs base \<noteq> []" using ne by (metis length_0_conv)
  from all_equal_replicate [OF eq this] n obtain v where
    ratio: "map2 fdiv obs base = replicate (length obs) v" by metis
  from ne obtain k where k: "length obs = Suc k" by (cases obs) simp_all
  have div: "np_divide obs base = Inr (replicate (Suc k) v)"
    using len ratio k by (simp add: np_divide_def)
  have lo: "np_min (replicate (Suc k) v) = Inr v"
    by (simp add: np_min_def foldl_same fmin_same)
  have hi: "np_max (replicate (Suc k) (fsub v v)) = Inr (fsub v v)"
    by (simp add: np_max_def foldl_same fmax_same)
  have "sky_obs_normalise obs base = Inr (map (\<lambda>x. fdiv x (fsub v v)) (replicate (Suc k) (fsub v v)))"
    unfolding sky_obs_normalise_def sky_obs_rescale_def div
    by (simp only: sum.case lo Let_def map_replicate hi)
  then show ?thesis by (simp add: fdiv_zero_range k)
qed

theorem normalise_degenerate_nan_witness:
  "length [Fin 2, Fin 4] = length [Fin 1, Fin 2] \<and> [Fin 2, Fin 4] \<noteq> [] \<and>
   all_equal (map2 fdiv [Fin 2, Fin 4] [Fin 1, Fin 2]) \<and>
   sky_obs_normalise [Fin 2, Fin 4] [Fin 1, Fin 2] = Inr (replicate (length [Fin 2, Fin 4]) NaN)"
proof -
  have a: "length [Fin 2, Fin 4] = length [Fin 1, Fin 2]" by simp
  have b: "[Fin 2, Fin 4] \<noteq> []" by simp
  have c: "all_equal (map2 fdiv [Fin 2, Fin 4] [Fin 1, Fin 2])"
    by (simp add: float64_overflow_def)
  from a b c normalise_degenerate_nan [OF a b c] show ?thesis by blast
qed

text \<open>A ratio that is 3 in every bin comes out as NaN in every bin.\<close>

theorem normalise_degenerate_counterexample:
  "all_equal (map2 fdiv [Fin 3, Fin 3, Fin 3] [Fin 1, Fin 1, Fin 1]) \<and>
   sky_obs_normalise [Fin 3, Fin 3, Fin 3] [Fin 1, Fin 1, Fin 1] = Inr [NaN, NaN, NaN]"
  by (simp add: sky_obs_normalise_def sky_obs_rescale_def np_divide_def np_min_def np_max_def
      fmin_def fmax_def fsub_def float64_overflow_def)

section \<open>Parsing a gain\<close>

text \<open>
  C3: an input that is not \<open>"auto"\<close> and does not parse as a number makes
  \<open>parse_gain\<close> raise, and return no value: for \<open>None\<close> the \<open>TypeError\<close> of
  \<open>parse_gain\<close> itself, for a text the \<open>ValueError\<close> of \<open>float\<close>, which the
  \<open>except\<close> clause lets through. Either message ends with the \<open>repr\<close> of the input.
\<close>

theorem parse_gain_raises:
  "gain_str \<noteq> PyStr ''auto'' \<Longrightarrow> \<not> parses_as_number str_to_float gain_str \<Longrightarrow>
   (gain_str = PyNone \<longrightarrow>
      parse_gain str_to_float repr_str gain_str =
        Inl (TypeError (''Invalid gain string: '' @ py_repr repr_str gain_str))) \<and>
   (gain_str \<noteq> PyNone \<longrightarrow>
      parse_gain str_to_float repr_str gain_str =
        Inl (ValueError (''could not convert string to float: '' @ py_repr repr_str gain_str))) \<and>
   parse_gain str_to_float repr_str gain_str \<noteq> Inr v"
  by (cases gain_str)
     (auto simp: parse_gain_def py_float_def py_repr_def parses_as_number_def split: option.splits)

theorem parse_gain_raises_witness:
  "PyNone \<noteq> PyStr ''auto'' \<and>
   \<not> parses_as_number (\<lambda>s. if s = ''3.5'' then Some (Fin (7 / 2)) else None) PyNone \<and>
   parse_gain (\<lambda>s. if s = ''3.5'' then Some (Fin (7 / 2)) else None) (\<lambda>s. [quote] @ s @ [quote]) PyNone =
     Inl (TypeError ''Invalid gain string: None'') \<and>
   PyStr ''high'' \<noteq> PyStr ''auto'' \<and>
   \<not> parses_as_number (\<lambda>s. if s = ''3.5'' then Some (Fin (7 / 2)) else None) (PyStr ''high'') \<and>
   parse_gain (\<lambda>s. if s = ''3.5'' then Some (Fin (7 / 2)) else None) (\<lambda>s. [quote] @ s @ [quote]) (PyStr ''high'') =
     Inl (ValueError (''could not convert string to float: '' @ [quote] @ ''high'' @ [quote]))"
proof -
  let ?p = "\<lambda>s. if s = ''3.5'' then Some (Fin (7 / 2)) else None"
  let ?r = "\<lambda>s. [quote] @ s @ [quote]"
  have a: "PyNone \<noteq> PyStr ''auto''" "PyStr ''high'' \<noteq> PyStr ''auto''" by simp_all
  have b: "\<not> parses_as_number ?p PyNone" "\<not> parses_as_number ?p (PyStr ''high'')"
    by (simp_all add: parses_as_number_def)
  show ?thesis
    using a b parse_gain_raises [OF a(1) b(1), of ?r] parse_gain_raises [OF a(2) b(2), of ?r]
    by (simp add: py_repr_def)
qed

text \<open>
  C8: \<open>parse_gain("auto")\<close> is the sentinel \<open>"auto"\<close>; a text that parses as a
  number gives that number (Python's \<open>float\<close> does not read \<open>"auto"\<close> as one);
  so \<open>parse_gain("3.5")\<close> is 3.5 as soon as \<open>float("3.5")\<close> is.
\<close>

theorem parse_gain_value:
  "parse_gain str_to_float repr_str (PyStr ''auto'') = Inr (GainStr ''auto'') \<and>
   (str_to_float ''auto'' = None \<longrightarrow> str_to_float s = Some v \<longrightarrow>
      parse_gain str_to_float repr_str (PyStr s) = Inr (GainFloat v)) \<and>
   (str_to_float ''3.5'' = Some (Fin (7 / 2)) \<longrightarrow>
      parse_gain str_to_float repr_str (PyStr ''3.5'') = Inr (GainFloat (Fin (7 / 2))))"
  by (auto simp: parse_gain_def py_float_def)

theorem parse_gain_value_witness:
  "(\<lambda>s. if s = ''3.5'' then Some (Fin (7 / 2)) else None) ''auto'' = None \<and>
   (\<lambda>s. if s = ''3.5'' then Some (Fin (7 / 2)) else None) ''3.5'' = Some (Fin (7 / 2)) \<and>
   parse_gain (\<lambda>s. if s = ''3.5'' then Some (Fin (7 / 2)) else None) (\<lambda>s. [quote] @ s @ [quote]) (PyStr ''3.5'') =
     Inr (GainFloat (Fin (7 / 2))) \<and>
   parse_gain (\<lambda>s. if s = ''3.5'' then Some (Fin (7 / 2)) else None) (\<lambda>s. [quote] @ s @ [quote]) (PyStr ''auto'') =
     Inr (GainStr ''auto'')"
  using parse_gain_value [of "\<lambda>s. if s = ''3.5'' then Some (Fin (7 / 2)) else None"
      "\<lambda>s. [quote] @ s @ [quote]" "''3.5''" "Fin (7 / 2)"]
  by simp

end
